theory Spec2Isabelle
  imports Main "HOL-Library.Word" "HOL-Library.AList"
begin

unbundle bit_operations_syntax

section \<open>Header value items\<close>

text \<open>
  Modelled from the spec: the item type \<^verbatim>\<open>HthvItem\<close> of \<^verbatim>\<open>hthv-item\<close>, whose declaration is
  missing from the sources. Its fields are those \<^verbatim>\<open>HthvPartial\<close> lists: \<^verbatim>\<open>$\<close>, \<^verbatim>\<open>n\<close>, \<^verbatim>\<open>t\<close>,
  \<^verbatim>\<open>v\<close>, \<^verbatim>\<open>x\<close>, \<^verbatim>\<open>p\<close> and \<^verbatim>\<open>pl\<close>. The code below reads \<^verbatim>\<open>n\<close>, \<^verbatim>\<open>v\<close>, \<^verbatim>\<open>p\<close> and \<^verbatim>\<open>pl\<close> only; the
  marker \<^verbatim>\<open>$\<close>, the tag \<^verbatim>\<open>t\<close> and the flag \<^verbatim>\<open>x\<close> are carried along as given.
  The parameter map \<^verbatim>\<open>p\<close> is a JavaScript object: an association list in insertion
  order, read with \<^const>\<open>map_of\<close> and written with \<^const>\<open>AList.update\<close>.
  Header names and values are compared for equality and emptiness only, so they are
  plain \<^typ>\<open>string\<close>s.
\<close>

datatype HthvItem = HthvItem
  (item_dollar: "string option")
  (item_n: "string option")
  (item_t: "string option")
  (item_v: string)
  (item_x: "bool option")
  (item_p: "(string \<times> HthvItem) list")
  (item_pl: "HthvItem list")

type_synonym HthvParamMap = "(string \<times> HthvItem) list"

text \<open>\<^verbatim>\<open>HthvPartial\<close>: every field but \<^verbatim>\<open>v\<close> is optional.\<close>

record HthvPartial =
  partial_dollar :: "string option"
  partial_n :: "string option"
  partial_t :: "string option"
  partial_v :: string
  partial_x :: "bool option"
  partial_p :: "HthvParamMap option"
  partial_pl :: "HthvItem list option"

text \<open>
  The fold rule of the data model: the parameter index is built from the parameter list
  from left to right, keyed by parameter name, a later parameter of the same name
  replacing the earlier one. A parameter without a name has no key.
\<close>

definition paramIndex :: "HthvItem list \<Rightarrow> HthvParamMap" where
  "paramIndex params =
     foldl (\<lambda>m q. case item_n q of None \<Rightarrow> m | Some k \<Rightarrow> AList.update k q m) [] params"

text \<open>
  Modelled from the spec: \<^verbatim>\<open>hthvItem\<close> of \<^verbatim>\<open>hthv-partial.impl\<close>, which is missing from the
  sources. Construction from a partial description fills in the empty parameter list
  and index when both are omitted, keeps what is given, and derives a missing side from
  the other one.
\<close>

definition hthvItem :: "HthvPartial \<Rightarrow> HthvItem" where
  "hthvItem part =
     HthvItem (partial_dollar part) (partial_n part) (partial_t part) (partial_v part)
       (partial_x part)
       (case partial_p part of
          Some m \<Rightarrow> m
        | None \<Rightarrow> (case partial_pl part of Some params \<Rightarrow> paramIndex params | None \<Rightarrow> []))
       (case partial_pl part of
          Some params \<Rightarrow> params
        | None \<Rightarrow> (case partial_p part of Some m \<Rightarrow> map snd m | None \<Rightarrow> []))"

text \<open>The partial description \<^verbatim>\<open>{ n: name, v: value }\<close>.\<close>

definition named :: "string \<Rightarrow> string \<Rightarrow> HthvPartial" where
  "named name val =
     \<lparr>partial_dollar = None, partial_n = Some name, partial_t = None, partial_v = val,
      partial_x = None, partial_p = None, partial_pl = None\<rparr>"

section \<open>Trust masks\<close>

text \<open>
  JavaScript's bitwise operators work on the 32-bit integer value of their operands, so
  a trust mask is a 32-bit word.
\<close>

type_synonym mask = "32 word"

text \<open>
  Modelled from the spec: the bits of \<^verbatim>\<open>HttpForwardTrustMask\<close>, whose module
  \<^verbatim>\<open>http-forward-trust\<close> is missing from the sources. A mask has two bits, and the code
  shifts \<^verbatim>\<open>TrustPrevious\<close> right by one to reach \<^verbatim>\<open>TrustCurrent\<close>.
\<close>

definition TrustCurrent :: mask where
  "TrustCurrent = 1"

definition TrustPrevious :: mask where
  "TrustPrevious = 2"

text \<open>The checker \<^verbatim>\<open>HttpForwardTrust.by(trust)\<close> returns: from a record and its hop
  distance to a mask.\<close>

type_synonym checker = "HthvItem \<Rightarrow> nat \<Rightarrow> mask"

section \<open>The forwarding report\<close>

record Defaults =
  by_d :: string
  for_d :: string
  host_d :: string
  proto_d :: string

text \<open>
  The report is a JavaScript object created as \<^verbatim>\<open>{}\<close>: an association list in insertion
  order. An assignment \<^verbatim>\<open>result[k] = v\<close> updates the entry of \<^verbatim>\<open>k\<close> or appends one; for
  the key \<^verbatim>\<open>__proto__\<close> it reaches the setter of \<^verbatim>\<open>Object.prototype\<close>, which ignores a
  string. (JavaScript enumerates keys that are array indices before the others; the
  statements below compare reports whose keys are names.)
\<close>

type_synonym HttpForwardRep = "(string \<times> string) list"

definition setProp :: "string \<Rightarrow> string \<Rightarrow> HttpForwardRep \<Rightarrow> HttpForwardRep" where
  "setProp k val r = (if k = ''__proto__'' then r else AList.update k val r)"

text \<open>The variables of the loop of \<^verbatim>\<open>HttpForwardRep.by\<close>.\<close>

record walk =
  trustedBy :: string
  trustedFor :: string
  trustedHost :: string
  trustedProto :: string
  trusted :: HthvItem
  trustedFlag :: mask
  index :: nat

text \<open>\<^verbatim>\<open>p.k?.v || dflt\<close>: the value of parameter \<^verbatim>\<open>k\<close> when the index has it and it is a
  non-empty string.\<close>

definition paramOr :: "HthvParamMap \<Rightarrow> string \<Rightarrow> string \<Rightarrow> string" where
  "paramOr m k dflt =
     (case map_of m k of
        None \<Rightarrow> dflt
      | Some q \<Rightarrow> if item_v q = [] then dflt else item_v q)"

text \<open>The synthetic record of hop distance 0, built from the defaults.\<close>

definition defaultsItem :: "Defaults \<Rightarrow> HthvItem" where
  "defaultsItem defaults =
     (let lastHost = hthvItem (named ''host'' (host_d defaults));
          lastProto = hthvItem (named ''proto'' (proto_d defaults))
      in hthvItem ((named ''for'' (for_d defaults))
           \<lparr>partial_p := Some [(''host'', lastHost), (''proto'', lastProto)],
            partial_pl := Some [lastHost, lastProto]\<rparr>))"

definition initial :: "checker \<Rightarrow> Defaults \<Rightarrow> walk" where
  "initial trustChecker defaults =
     \<lparr>trustedBy = by_d defaults, trustedFor = for_d defaults,
      trustedHost = host_d defaults, trustedProto = proto_d defaults,
      trusted = defaultsItem defaults,
      trustedFlag = trustChecker (defaultsItem defaults) 0,
      index = 0\<rparr>"

text \<open>
  The loop \<^verbatim>\<open>for (let i = items.length - 1; i >= 0; --i)\<close>. The numeric argument is
  \<^verbatim>\<open>i + 1\<close>, so \<open>0\<close> is the exit and \<^verbatim>\<open>items[i]\<close> is always in range.
\<close>

fun loop :: "checker \<Rightarrow> HthvItem list \<Rightarrow> nat \<Rightarrow> walk \<Rightarrow> walk" where
  "loop trustChecker items 0 s = s"
| "loop trustChecker items (Suc i) s =
     (let item = items ! i;
          hop = Suc (index s);
          flag = trustChecker item hop OR drop_bit 1 (trustedFlag s AND TrustPrevious)
      in if flag AND TrustCurrent = 0
         then s\<lparr>trustedFlag := flag, index := hop\<rparr>
         else loop trustChecker items i
                (s\<lparr>trustedBy := paramOr (item_p item) ''by'' (trustedBy s),
                   trustedFor := paramOr (item_p item) ''for'' (trustedFor s),
                   trustedHost := paramOr (item_p item) ''host'' (trustedHost s),
                   trustedProto := paramOr (item_p item) ''proto'' (trustedProto s),
                   trusted := item,
                   trustedFlag := flag,
                   index := hop\<rparr>))"

text \<open>\<^verbatim>\<open>for (const { n, v } of trusted.pl) if (n) result[n] = v\<close>.\<close>

fun copyParams :: "HthvItem list \<Rightarrow> HttpForwardRep \<Rightarrow> HttpForwardRep" where
  "copyParams [] r = r"
| "copyParams (q # qs) r =
     copyParams qs
       (case item_n q of
          None \<Rightarrow> r
        | Some k \<Rightarrow> if k = [] then r else setProp k (item_v q) r)"

text \<open>The report built after the loop from its variables.\<close>

definition buildResult :: "walk \<Rightarrow> HttpForwardRep" where
  "buildResult s =
     (let r1 = copyParams (item_pl (trusted s)) [];
          r2 = (case item_n (trusted s) of
                  None \<Rightarrow> r1
                | Some k \<Rightarrow> if k = [] then r1 else setProp k (item_v (trusted s)) r1)
      in setProp ''proto'' (trustedProto s)
           (setProp ''host'' (trustedHost s)
             (setProp ''for'' (trustedFor s)
               (setProp ''by'' (trustedBy s) r2))))"

text \<open>
  \<^verbatim>\<open>HttpForwardRep.by\<close>. The function \<^verbatim>\<open>HttpForwardTrust.by\<close>, which turns a trust policy
  into a checker, is missing from the sources and is the parameter \<open>trustBy\<close>.
\<close>

definition HttpForwardRep_by ::
  "('t \<Rightarrow> checker) \<Rightarrow> HthvItem list \<Rightarrow> Defaults \<Rightarrow> 't \<Rightarrow> HttpForwardRep" where
  "HttpForwardRep_by trustBy items defaults trust =
     (let trustChecker = trustBy trust
      in buildResult (loop trustChecker items (length items) (initial trustChecker defaults)))"

section \<open>Choosing the headers\<close>

text \<open>A header value is a single string or several (\<^verbatim>\<open>string | Iterable<string>\<close>); a
  missing header is \<open>None\<close>.\<close>

datatype header_value = Single string | Multiple "string list"

record Headers =
  forwarded :: "header_value option"
  x_forwarded_for :: "header_value option"
  x_forwarded_host :: "header_value option"
  x_forwarded_proto :: "header_value option"

text \<open>JavaScript's truthiness of a header: a missing header and the empty string are
  falsy, any iterable is truthy.\<close>

fun present :: "header_value option \<Rightarrow> bool" where
  "present None = False"
| "present (Some (Single str)) = (str \<noteq> [])"
| "present (Some (Multiple strs)) = True"

text \<open>The trust policy: \<^verbatim>\<open>parse\<close> reads its \<^verbatim>\<open>xForwarded\<close> flag; whatever else it holds is
  the extension of the record, read by \<^verbatim>\<open>HttpForwardTrust.by\<close> only.\<close>

record HttpForwardTrust =
  xForwarded :: "bool option"

text \<open>\<^verbatim>\<open>forwardedHost && hthvItem({ n: name, v: forwardedHost })\<close>, kept only when truthy.\<close>

definition optItem :: "string \<Rightarrow> string option \<Rightarrow> HthvItem option" where
  "optItem name val =
     (case val of
        None \<Rightarrow> None
      | Some str \<Rightarrow> if str = [] then None else Some (hthvItem (named name str)))"

text \<open>
  \<^verbatim>\<open>hthvXForwardedItems\<close>. The parsers \<^verbatim>\<open>hthvParseTrivial\<close> and \<^verbatim>\<open>hthvParseFirstTrivial\<close> are
  missing from the sources and are parameters.
\<close>

definition hthvXForwardedItems ::
  "(header_value \<Rightarrow> string list) \<Rightarrow> (header_value option \<Rightarrow> string option) \<Rightarrow>
   Headers \<Rightarrow> HthvItem list" where
  "hthvXForwardedItems hthvParseTrivial hthvParseFirstTrivial headers =
     (case x_forwarded_for headers of
        None \<Rightarrow> []
      | Some forwardedForValue \<Rightarrow>
          if \<not> present (Some forwardedForValue) then []
          else
            let forwardedFor = hthvParseTrivial forwardedForValue;
                host = optItem ''host'' (hthvParseFirstTrivial (x_forwarded_host headers));
                proto = optItem ''proto'' (hthvParseFirstTrivial (x_forwarded_proto headers));
                p1 = (case host of None \<Rightarrow> [] | Some h \<Rightarrow> AList.update ''host'' h []);
                pl1 = (case host of None \<Rightarrow> [] | Some h \<Rightarrow> [h]);
                p2 = (case proto of None \<Rightarrow> p1 | Some q \<Rightarrow> AList.update ''proto'' q p1);
                pl2 = (case proto of None \<Rightarrow> pl1 | Some q \<Rightarrow> pl1 @ [q])
            in map (\<lambda>val. hthvItem ((named ''for'' val)
                              \<lparr>partial_p := Some p2, partial_pl := Some pl2\<rparr>))
                 forwardedFor)"

text \<open>\<^verbatim>\<open>{ ...defaults }\<close>: a copy of the defaults.\<close>

definition copyDefaults :: "Defaults \<Rightarrow> HttpForwardRep" where
  "copyDefaults defaults =
     [(''by'', by_d defaults), (''for'', for_d defaults),
      (''host'', host_d defaults), (''proto'', proto_d defaults)]"

text \<open>\<^verbatim>\<open>HttpForwardRep.parse\<close>. The parser \<^verbatim>\<open>hthvParse\<close> is missing from the sources and is a
  parameter.\<close>

definition HttpForwardRep_parse ::
  "(string \<Rightarrow> HthvItem list) \<Rightarrow> (header_value \<Rightarrow> string list) \<Rightarrow>
   (header_value option \<Rightarrow> string option) \<Rightarrow>
   ('a HttpForwardTrust_scheme \<Rightarrow> checker) \<Rightarrow>
   Headers \<Rightarrow> Defaults \<Rightarrow> 'a HttpForwardTrust_scheme \<Rightarrow> HttpForwardRep" where
  "HttpForwardRep_parse hthvParse hthvParseTrivial hthvParseFirstTrivial trustBy
       headers defaults trust =
     (if present (forwarded headers) then
        HttpForwardRep_by trustBy
          (case forwarded headers of
             Some (Single fwd) \<Rightarrow> hthvParse fwd
           | Some (Multiple fwds) \<Rightarrow> concat (map hthvParse fwds)
           | None \<Rightarrow> [])
          defaults trust
      else if xForwarded trust = Some False then copyDefaults defaults
      else
        HttpForwardRep_by trustBy
          (hthvXForwardedItems hthvParseTrivial hthvParseFirstTrivial headers)
          defaults trust)"

section \<open>Quoting\<close>

text \<open>
  A JavaScript string is a sequence of UTF-16 code units, and \<^verbatim>\<open>string[i]\<close> is one of
  them. The table \<^verbatim>\<open>delimiters\<close> is missing from the sources; \<^verbatim>\<open>hthvQuote\<close> only tests
  whether its entry for a character is truthy, so it is a predicate and a parameter.
\<close>

type_synonym code_unit = "16 word"
type_synonym jsstring = "code_unit list"

definition backslash :: code_unit where
  "backslash = 0x5C"

definition dquote :: code_unit where
  "dquote = 0x22"

text \<open>\<^verbatim>\<open>c >= '\u0000' && c <= ' ' || delimiters[c] || c === '\u007f'\<close>.\<close>

definition special :: "(code_unit \<Rightarrow> bool) \<Rightarrow> code_unit \<Rightarrow> bool" where
  "special delimiters c = (0 \<le> c \<and> c \<le> 0x20 \<or> delimiters c \<or> c = 0x7F)"

text \<open>
  The loop of \<^verbatim>\<open>hthvQuote\<close> from index \<open>i\<close>, with the variables \<^verbatim>\<open>escaped\<close> (\<open>None\<close> is
  \<^verbatim>\<open>undefined\<close>) and \<^verbatim>\<open>quote\<close>. The tests \<^verbatim>\<open>!escaped\<close> and \<^verbatim>\<open>escaped\<close> are JavaScript's
  truthiness: the empty string counts as unset.
\<close>

function quoteLoop ::
  "(code_unit \<Rightarrow> bool) \<Rightarrow> jsstring \<Rightarrow> nat \<Rightarrow> jsstring option \<Rightarrow> bool \<Rightarrow>
   jsstring option \<times> bool" where
  "quoteLoop delimiters str i escaped quote =
     (if i < length str then
        (let c = str ! i in
         if special delimiters c then
           (if c = backslash \<or> c = dquote then
              quoteLoop delimiters str (Suc i)
                (Some ((case escaped of
                          None \<Rightarrow> take i str
                        | Some e \<Rightarrow> if e = [] then take i str else e) @ [backslash, c]))
                True
            else quoteLoop delimiters str (Suc i) escaped True)
         else
           quoteLoop delimiters str (Suc i)
             (case escaped of
                None \<Rightarrow> None
              | Some e \<Rightarrow> if e = [] then Some e else Some (e @ [c]))
             quote)
      else (escaped, quote))"
  by pat_completeness auto
termination
  by (relation "measure (\<lambda>(delimiters, str, i, escaped, quote). length str - i)") auto

definition hthvQuote :: "(code_unit \<Rightarrow> bool) \<Rightarrow> jsstring \<Rightarrow> jsstring" where
  "hthvQuote delimiters str =
     (if str = [] then [dquote, dquote]
      else
        (case quoteLoop delimiters str 0 None False of
           (escaped, quote) \<Rightarrow>
             if quote
             then [dquote] @ (case escaped of Some e \<Rightarrow> e | None \<Rightarrow> str) @ [dquote]
             else str))"

section \<open>Auxiliary notions of the statements\<close>

text \<open>
  The number of hops the walk accepted, read off the variables after the loop: the loop
  counter, less the hop the loop stopped at when it left by \<^verbatim>\<open>break\<close> (then the last mask
  computed lacks \<^verbatim>\<open>TrustCurrent\<close>).
\<close>

definition trustedHops :: "walk \<Rightarrow> nat" where
  "trustedHops s =
     (if 0 < index s \<and> trustedFlag s AND TrustCurrent = 0 then index s - 1 else index s)"

text \<open>The invariant of the data model: the parameter index of an item is the fold of its
  parameter list.\<close>

definition indexed :: "HthvItem \<Rightarrow> bool" where
  "indexed item = (item_p item = paramIndex (item_pl item))"

text \<open>A character that \<^verbatim>\<open>hthvQuote\<close> escapes: one that forces quoting and is a backslash
  or a double quote.\<close>

definition escapable :: "(code_unit \<Rightarrow> bool) \<Rightarrow> code_unit \<Rightarrow> bool" where
  "escapable delimiters c = (special delimiters c \<and> (c = backslash \<or> c = dquote))"

text \<open>What one iteration of the loop appends to \<^verbatim>\<open>escaped\<close> once that buffer exists.\<close>

definition appended :: "(code_unit \<Rightarrow> bool) \<Rightarrow> code_unit \<Rightarrow> jsstring" where
  "appended delimiters c =
     (if special delimiters c
      then (if c = backslash \<or> c = dquote then [backslash, c] else [])
      else [c])"

text \<open>
  The quoted form as the specification words it, for comparison with \<^const>\<open>hthvQuote\<close>: the
  string in one pair of double quotes, every backslash and every double quote of it
  preceded by one more backslash.
\<close>

definition escaped_spec :: "jsstring \<Rightarrow> jsstring" where
  "escaped_spec str =
     concat (map (\<lambda>c. if c = backslash \<or> c = dquote then [backslash, c] else [c]) str)"

definition quoted_spec :: "jsstring \<Rightarrow> jsstring" where
  "quoted_spec str = [dquote] @ escaped_spec str @ [dquote]"

text \<open>
  What the report holds under a key other than \<^verbatim>\<open>by\<close>, \<^verbatim>\<open>for\<close>, \<^verbatim>\<open>host\<close> and \<^verbatim>\<open>proto\<close>, as
  a function of the trusted record alone: the value of the record when the key is its
  name, else the value of the last parameter of that name in its parameter list.
\<close>

fun lastNamed :: "string \<Rightarrow> HthvItem list \<Rightarrow> string option" where
  "lastNamed k [] = None"
| "lastNamed k (q # qs) =
     (case lastNamed k qs of
        Some val \<Rightarrow> Some val
      | None \<Rightarrow> if item_n q = Some k then Some (item_v q) else None)"

definition extensionField :: "HthvItem \<Rightarrow> string \<Rightarrow> string option" where
  "extensionField item k =
     (if k = [] \<or> k = ''__proto__'' then None
      else if item_n item = Some k then Some (item_v item)
      else lastNamed k (item_pl item))"

text \<open>The mask the loop computes for a record, and the variables after the loop has
  accepted the record; they name the two halves of one iteration in the proofs.\<close>

definition hopMask :: "checker \<Rightarrow> HthvItem \<Rightarrow> walk \<Rightarrow> mask" where
  "hopMask trustChecker item s =
     trustChecker item (Suc (index s)) OR drop_bit 1 (trustedFlag s AND TrustPrevious)"

definition accept :: "HthvItem \<Rightarrow> mask \<Rightarrow> walk \<Rightarrow> walk" where
  "accept item flag s =
     s\<lparr>trustedBy := paramOr (item_p item) ''by'' (trustedBy s),
       trustedFor := paramOr (item_p item) ''for'' (trustedFor s),
       trustedHost := paramOr (item_p item) ''host'' (trustedHost s),
       trustedProto := paramOr (item_p item) ''proto'' (trustedProto s),
       trusted := item,
       trustedFlag := flag,
       index := Suc (index s)\<rparr>"

section \<open>Facts about the walk\<close>

lemma loop_Suc:
  "loop c items (Suc i) s =
     (if hopMask c (items ! i) s AND TrustCurrent = 0
      then s\<lparr>trustedFlag := hopMask c (items ! i) s, index := Suc (index s)\<rparr>
      else loop c items i (accept (items ! i) (hopMask c (items ! i) s) s))"
  by (simp add: Let_def hopMask_def accept_def del: drop_bit_and)

declare loop.simps(2) [simp del]

lemma index_accept [simp]: "index (accept item flag s) = Suc (index s)"
  by (simp add: accept_def)

lemma trustedFlag_accept [simp]: "trustedFlag (accept item flag s) = flag"
  by (simp add: accept_def)

lemma TrustCurrent_nonzero: "TrustCurrent \<noteq> 0"
  by (simp add: TrustCurrent_def)

lemma full_and_current:
  "((TrustCurrent OR TrustPrevious) OR y) AND TrustCurrent = TrustCurrent"
  unfolding TrustCurrent_def TrustPrevious_def
  by (rule bit_word_eqI) (auto simp: bit_simps)

lemma full_has_current: "((TrustCurrent OR TrustPrevious) OR y) AND TrustCurrent \<noteq> 0"
  by (simp add: full_and_current TrustCurrent_nonzero)

lemma full_propagates:
  "drop_bit (Suc 0) (((TrustCurrent OR TrustPrevious) OR y) AND TrustPrevious) = TrustCurrent"
  unfolding TrustCurrent_def TrustPrevious_def
  by (rule bit_word_eqI) (auto simp: bit_simps)

lemma buildResult_flag_index [simp]:
  "buildResult (s\<lparr>trustedFlag := f, index := k\<rparr>) = buildResult s"
  by (simp add: buildResult_def Let_def split: option.split)

lemma buildResult_flag [simp]:
  "buildResult (s\<lparr>trustedFlag := f\<rparr>) = buildResult s"
  by (simp add: buildResult_def Let_def split: option.split)

text \<open>The four required fields of the report are the accumulated values.\<close>

lemma map_of_setProp:
  "k \<noteq> ''__proto__'' \<Longrightarrow> map_of (setProp k val r) = (map_of r)(k \<mapsto> val)"
  by (simp add: setProp_def update_conv')

lemma required_fields:
  "map_of (buildResult s) ''by'' = Some (trustedBy s) \<and>
   map_of (buildResult s) ''for'' = Some (trustedFor s) \<and>
   map_of (buildResult s) ''host'' = Some (trustedHost s) \<and>
   map_of (buildResult s) ''proto'' = Some (trustedProto s)"
  by (simp add: buildResult_def Let_def map_of_setProp)

lemma paramOr_given:
  "map_of m k = Some q \<Longrightarrow> item_v q \<noteq> [] \<Longrightarrow> paramOr m k dflt = item_v q"
  by (simp add: paramOr_def)

text \<open>The report, key by key.\<close>

lemma map_of_setProp_other:
  "map_of (setProp k' val r) k =
     (if k' = k \<and> k \<noteq> ''__proto__'' then Some val else map_of r k)"
  by (simp add: setProp_def update_conv')

lemma map_of_copyParams:
  "map_of (copyParams qs r) k =
     (if k = [] \<or> k = ''__proto__'' then map_of r k
      else case lastNamed k qs of Some val \<Rightarrow> Some val | None \<Rightarrow> map_of r k)"
proof (induction qs arbitrary: r)
  case Nil
  show ?case by simp
next
  case (Cons q qs)
  show ?case
    by (cases "item_n q") (auto simp: Cons.IH map_of_setProp_other split: option.splits)
qed

lemma map_of_buildResult:
  "map_of (buildResult s) k =
     (if k = ''by'' then Some (trustedBy s)
      else if k = ''for'' then Some (trustedFor s)
      else if k = ''host'' then Some (trustedHost s)
      else if k = ''proto'' then Some (trustedProto s)
      else extensionField (trusted s) k)"
  by (cases "item_n (trusted s)")
     (auto simp: buildResult_def Let_def map_of_setProp_other map_of_copyParams
        extensionField_def split: option.splits)

text \<open>The invariant of the report: the four required fields are always there.\<close>

lemma report_required_fields:
  "{''by'', ''for'', ''host'', ''proto''}
     \<subseteq> dom (map_of (HttpForwardRep_by trustBy items defaults trust))"
  by (auto simp: HttpForwardRep_by_def Let_def required_fields)

lemmas by_simps = HttpForwardRep_by_def buildResult_def initial_def defaultsItem_def
  hthvItem_def named_def setProp_def Let_def paramOr_def loop_Suc hopMask_def accept_def

text \<open>Two checkers that agree at every positive hop distance walk alike.\<close>

lemma loop_agree:
  "(\<And>item hop. 0 < hop \<Longrightarrow> c1 item hop = c2 item hop) \<Longrightarrow>
   loop c1 items n s = loop c2 items n s"
  by (induction n arbitrary: s) (simp_all add: loop_Suc hopMask_def)

text \<open>The walk reads the mask it starts from through its \<^verbatim>\<open>TrustPrevious\<close> bit only, and
  the report does not hold the mask.\<close>

lemma loop_flag_bit:
  assumes "\<And>item hop. 0 < hop \<Longrightarrow> c1 item hop = c2 item hop"
    and "trustedFlag s AND TrustPrevious = f AND TrustPrevious"
  shows "buildResult (loop c1 items n s) = buildResult (loop c2 items n (s\<lparr>trustedFlag := f\<rparr>))"
proof (cases n)
  case 0
  then show ?thesis by simp
next
  case (Suc i)
  have "hopMask c2 (items ! i) (s\<lparr>trustedFlag := f\<rparr>) = hopMask c1 (items ! i) s"
    using assms by (simp add: hopMask_def)
  moreover have "accept item flag (s\<lparr>trustedFlag := f\<rparr>) = accept item flag s" for item flag
    by (simp add: accept_def)
  ultimately show ?thesis
    using assms(1) by (simp add: Suc loop_Suc loop_agree [of c1 c2])
qed

text \<open>Once a record is accepted, the count of accepted hops has grown for good.\<close>

lemma trustedHops_loop_ge:
  "0 < n \<or> trustedFlag s AND TrustCurrent \<noteq> 0 \<or> index s = 0 \<Longrightarrow>
   index s \<le> trustedHops (loop c items n s)"
proof (induction n arbitrary: s)
  case 0
  then show ?case by (auto simp: trustedHops_def)
next
  case (Suc n)
  show ?case
  proof (cases "hopMask c (items ! n) s AND TrustCurrent = 0")
    case True
    then show ?thesis by (simp add: loop_Suc trustedHops_def)
  next
    case False
    then have "index (accept (items ! n) (hopMask c (items ! n) s) s)
                 \<le> trustedHops (loop c items n (accept (items ! n) (hopMask c (items ! n) s) s))"
      by (intro Suc.IH) simp
    with False show ?thesis by (simp add: loop_Suc)
  qed
qed

text \<open>The walk over a list without its first \<open>j\<close> items, against the walk over the whole
  list: the reports agree when the whole walk accepts none of those \<open>j\<close> items.\<close>

lemma loop_drop_result:
  "n + j \<le> length items \<Longrightarrow> trustedHops (loop c items (n + j) s) \<le> index s + n \<Longrightarrow>
   buildResult (loop c (drop j items) n s) = buildResult (loop c items (n + j) s)"
proof (induction n arbitrary: s)
  case 0
  show ?case
  proof (cases j)
    case 0
    then show ?thesis by simp
  next
    case (Suc i)
    show ?thesis
    proof (cases "hopMask c (items ! i) s AND TrustCurrent = 0")
      case True
      then show ?thesis by (simp add: Suc loop_Suc)
    next
      case False
      then have "index (accept (items ! i) (hopMask c (items ! i) s) s)
                   \<le> trustedHops (loop c items i (accept (items ! i) (hopMask c (items ! i) s) s))"
        by (intro trustedHops_loop_ge) simp
      with "0.prems"(2) False have False by (simp add: Suc loop_Suc)
      then show ?thesis ..
    qed
  qed
next
  case (Suc n)
  have nth: "drop j items ! n = items ! (n + j)"
    using Suc.prems(1) by (simp add: add.commute)
  show ?case
  proof (cases "hopMask c (items ! (n + j)) s AND TrustCurrent = 0")
    case True
    then show ?thesis by (simp add: loop_Suc nth)
  next
    case False
    with Suc.prems Suc.IH [of "accept (items ! (n + j)) (hopMask c (items ! (n + j)) s) s"]
    show ?thesis by (simp add: loop_Suc nth)
  qed
qed

lemma hthvXForwardedItems_forwarded:
  "hthvXForwardedItems hthvParseTrivial hthvParseFirstTrivial (headers\<lparr>forwarded := fwd\<rparr>) =
   hthvXForwardedItems hthvParseTrivial hthvParseFirstTrivial headers"
  by (simp add: hthvXForwardedItems_def Let_def split: option.split)


section \<open>Facts about the quoting loop\<close>

declare quoteLoop.simps [simp del]

lemma quoteLoop_end: "length str \<le> i \<Longrightarrow> quoteLoop D str i e q = (e, q)"
  by (subst quoteLoop.simps) simp

text \<open>With the buffer set, every later iteration appends to it.\<close>

lemma quoteLoop_buffer:
  "e \<noteq> [] \<Longrightarrow>
   quoteLoop D str i (Some e) q =
     (Some (e @ concat (map (appended D) (drop i str))),
      q \<or> (\<exists>c\<in>set (drop i str). special D c))"
proof (induction "length str - i" arbitrary: i e q)
  case 0
  then show ?case by (simp add: quoteLoop_end)
next
  case (Suc k)
  then have lt: "i < length str" by simp
  have dr: "drop i str = str ! i # drop (Suc i) str"
    using lt by (simp add: Cons_nth_drop_Suc)
  have k: "k = length str - Suc i" using Suc.hyps(2) by simp
  show ?case
    using lt Suc.prems
    by (subst quoteLoop.simps)
       (simp add: Let_def dr Suc.hyps(1) [OF k] appended_def)
qed

text \<open>With the buffer unset, the loop copies the string up to the first character it
  escapes, and goes on as above.\<close>

lemma quoteLoop_unset:
  "quoteLoop D str i None q =
     (if \<exists>c\<in>set (drop i str). escapable D c
      then (Some (take i str @ takeWhile (\<lambda>c. \<not> escapable D c) (drop i str) @
                  concat (map (appended D) (dropWhile (\<lambda>c. \<not> escapable D c) (drop i str)))),
            True)
      else (None, q \<or> (\<exists>c\<in>set (drop i str). special D c)))"
proof (induction "length str - i" arbitrary: i q)
  case 0
  then show ?case by (simp add: quoteLoop_end)
next
  case (Suc k)
  then have lt: "i < length str" by simp
  have dr: "drop i str = str ! i # drop (Suc i) str"
    using lt by (simp add: Cons_nth_drop_Suc)
  have tk: "take (Suc i) str = take i str @ [str ! i]"
    using lt by (simp add: take_Suc_conv_app_nth)
  have k: "k = length str - Suc i" using Suc.hyps(2) by simp
  show ?case
  proof (cases "escapable D (str ! i)")
    case True
    then have sp: "special D (str ! i)" and bq: "str ! i = backslash \<or> str ! i = dquote"
      by (auto simp: escapable_def)
    have ap: "appended D (str ! i) = [backslash, str ! i]"
      using sp bq by (auto simp: appended_def)
    have "quoteLoop D str i None q =
            quoteLoop D str (Suc i) (Some (take i str @ [backslash, str ! i])) True"
      using lt sp bq by (subst quoteLoop.simps) (simp add: Let_def)
    also have "\<dots> = (Some ((take i str @ [backslash, str ! i]) @
                          concat (map (appended D) (drop (Suc i) str))), True)"
      by (simp add: quoteLoop_buffer)
    finally show ?thesis
      using True by (simp add: dr ap)
  next
    case False
    show ?thesis
    proof (cases "special D (str ! i)")
      case True
      with False have nbq: "\<not> (str ! i = backslash \<or> str ! i = dquote)"
        by (auto simp: escapable_def)
      have "quoteLoop D str i None q = quoteLoop D str (Suc i) None True"
        using lt True nbq by (subst quoteLoop.simps) (simp add: Let_def)
      then show ?thesis
        using False True by (simp add: Suc.hyps(1) [OF k] dr tk)
    next
      case nsp: False
      have "quoteLoop D str i None q = quoteLoop D str (Suc i) None q"
        using lt nsp by (subst quoteLoop.simps) (simp add: Let_def)
      then show ?thesis
        using False nsp by (simp add: Suc.hyps(1) [OF k] dr tk)
    qed
  qed
qed

text \<open>What \<^const>\<open>hthvQuote\<close> returns, in closed form. After the first escaped character, a
  character that forces quoting and is neither a backslash nor a double quote
  contributes nothing to the result.\<close>

lemma hthvQuote_shape:
  "hthvQuote D str =
     (if str = [] then [dquote, dquote]
      else if \<exists>c\<in>set str. escapable D c
      then dquote # takeWhile (\<lambda>c. \<not> escapable D c) str @
           concat (map (appended D) (dropWhile (\<lambda>c. \<not> escapable D c) str)) @ [dquote]
      else if \<exists>c\<in>set str. special D c then dquote # str @ [dquote]
      else str)"
  by (simp add: hthvQuote_def quoteLoop_unset)

lemma hthvQuote_nonempty: "hthvQuote D str \<noteq> []"
  by (simp add: hthvQuote_shape)

lemma shifted_prefix:
  "xs @ y # ys = d # xs @ zs \<Longrightarrow> y = d \<and> (\<forall>x\<in>set xs. x = d)"
  by (induction xs arbitrary: d) auto

lemma appended_members:
  "y \<in> set (concat (map (appended D) r)) \<Longrightarrow> y = backslash \<or> y = dquote \<or> \<not> special D y"
  by (auto simp: appended_def split: if_splits)

lemma length_appended:
  "\<forall>y\<in>set r. appended D y \<noteq> [] \<Longrightarrow> length r \<le> length (concat (map (appended D) r))"
proof (induction r)
  case Nil
  show ?case by simp
next
  case (Cons y r)
  then obtain a as where "appended D y = a # as"
    by (cases "appended D y") auto
  with Cons show ?case by simp
qed

lemma no_fixed_tail:
  assumes "r = [backslash, dquote] @ concat (map (appended D) r) @ [dquote]"
  shows False
proof -
  have "\<forall>y\<in>set r. y = backslash \<or> y = dquote \<or> \<not> special D y"
  proof
    fix y assume "y \<in> set r"
    then have "y \<in> set ([backslash, dquote] @ concat (map (appended D) r) @ [dquote])"
      using assms by simp
    then show "y = backslash \<or> y = dquote \<or> \<not> special D y"
      using appended_members [of y D r] by auto
  qed
  then have "\<forall>y\<in>set r. appended D y \<noteq> []"
    by (auto simp: appended_def)
  then have "length r \<le> length (concat (map (appended D) r))"
    by (rule length_appended)
  moreover have "length r = 3 + length (concat (map (appended D) r))"
    by (subst assms) simp
  ultimately show False by simp
qed

text \<open>The result built from the buffer is never the string itself.\<close>

lemma escaped_form_differs:
  assumes "\<exists>c\<in>set str. escapable D c"
  shows "dquote # takeWhile (\<lambda>c. \<not> escapable D c) str @
           concat (map (appended D) (dropWhile (\<lambda>c. \<not> escapable D c) str)) @ [dquote] \<noteq> str"
proof
  define pre where "pre = takeWhile (\<lambda>c. \<not> escapable D c) str"
  define rest where "rest = dropWhile (\<lambda>c. \<not> escapable D c) str"
  assume eq: "dquote # takeWhile (\<lambda>c. \<not> escapable D c) str @
           concat (map (appended D) (dropWhile (\<lambda>c. \<not> escapable D c) str)) @ [dquote] = str"
  have split: "str = pre @ rest"
    by (simp add: pre_def rest_def)
  have "rest \<noteq> []"
    using assms by (simp add: rest_def)
  then obtain c r where rest: "rest = c # r"
    by (cases rest) auto
  have esc: "escapable D c"
    using hd_dropWhile [of "\<lambda>c. \<not> escapable D c" str] \<open>rest \<noteq> []\<close> rest
    by (simp add: rest_def)
  have ap: "appended D c = [backslash, c]"
    using esc by (auto simp: escapable_def appended_def)
  from eq have "dquote # pre @ concat (map (appended D) rest) @ [dquote] = str"
    by (simp only: pre_def rest_def)
  then have eq': "pre @ c # r =
      dquote # pre @ ([backslash, c] @ concat (map (appended D) r) @ [dquote])"
    by (simp add: split rest ap)
  from shifted_prefix [OF eq'] have c: "c = dquote" and pre: "\<forall>x\<in>set pre. x = dquote"
    by auto
  have "pre = []"
  proof (rule ccontr)
    assume "pre \<noteq> []"
    then obtain x where x: "x \<in> set pre" by (cases pre) auto
    then have "\<not> escapable D x"
      by (auto simp: pre_def dest: set_takeWhileD)
    with pre x c esc show False by auto
  qed
  with eq' c have "r = [backslash, dquote] @ concat (map (appended D) r) @ [dquote]"
    by simp
  then show False by (rule no_fixed_tail)
qed

section \<open>The claims\<close>







text \<open>
  C3, as stated, fails: the mask of the record of hop distance 0 is what the policy
  answers at distance 0, and the report depends on that answer. With one item and a
  policy that answers 0 at every positive distance, the item is trusted when the answer
  at distance 0 is \<^verbatim>\<open>TrustCurrent|TrustPrevious\<close> and is not when it is 0.
\<close>

theorem distance0_policy_counterexample:
  "trustedFlag (initial (\<lambda>_ _. 0) \<lparr>by_d = ''b'', for_d = ''f'', host_d = ''h'', proto_d = ''p''\<rparr>)
     \<noteq> TrustCurrent OR TrustPrevious \<and>
   HttpForwardRep_by (\<lambda>_ _ hop. if hop = 0 then TrustCurrent OR TrustPrevious else 0)
       [hthvItem ((named ''for'' ''c'')
          \<lparr>partial_p := Some [(''host'', hthvItem (named ''host'' ''x''))],
           partial_pl := Some [hthvItem (named ''host'' ''x'')]\<rparr>)]
       \<lparr>by_d = ''b'', for_d = ''f'', host_d = ''h'', proto_d = ''p''\<rparr> () \<noteq>
   HttpForwardRep_by (\<lambda>_ _ hop. 0)
       [hthvItem ((named ''for'' ''c'')
          \<lparr>partial_p := Some [(''host'', hthvItem (named ''host'' ''x''))],
           partial_pl := Some [hthvItem (named ''host'' ''x'')]\<rparr>)]
       \<lparr>by_d = ''b'', for_d = ''f'', host_d = ''h'', proto_d = ''p''\<rparr> ()"
  by (simp add: by_simps TrustCurrent_def TrustPrevious_def)

text \<open>
  C3, amended. The mask of the record of hop distance 0 is the answer of the policy at
  distance 0. Its \<^verbatim>\<open>TrustCurrent\<close> bit is never tested, the defaults seed the walk whatever
  it is, and the report depends on the answer at distance 0 through its \<^verbatim>\<open>TrustPrevious\<close>
  bit only: two policies that agree at every positive distance, and whose answers at
  distance 0 have the same \<^verbatim>\<open>TrustPrevious\<close> bit, give the same report.
\<close>

theorem distance0_only_TrustPrevious:
  assumes "\<forall>item hop. 0 < hop \<longrightarrow> trustBy trust item hop = trustBy' trust' item hop"
    and "trustBy trust (defaultsItem defaults) 0 AND TrustPrevious =
         trustBy' trust' (defaultsItem defaults) 0 AND TrustPrevious"
  shows "trustedFlag (initial (trustBy trust) defaults) = trustBy trust (defaultsItem defaults) 0 \<and>
         trusted (initial (trustBy trust) defaults) = defaultsItem defaults \<and>
         HttpForwardRep_by trustBy items defaults trust =
         HttpForwardRep_by trustBy' items defaults trust'"
proof -
  have "initial (trustBy' trust') defaults =
        (initial (trustBy trust) defaults)
          \<lparr>trustedFlag := trustBy' trust' (defaultsItem defaults) 0\<rparr>"
    by (simp add: initial_def)
  moreover have "trustedFlag (initial (trustBy trust) defaults) AND TrustPrevious =
                 trustBy' trust' (defaultsItem defaults) 0 AND TrustPrevious"
    using assms(2) by (simp add: initial_def)
  ultimately have "HttpForwardRep_by trustBy items defaults trust =
         HttpForwardRep_by trustBy' items defaults trust'"
    using loop_flag_bit [of "trustBy trust" "trustBy' trust'" "initial (trustBy trust) defaults"
        "trustBy' trust' (defaultsItem defaults) 0" items "length items"] assms(1)
    by (simp add: HttpForwardRep_by_def Let_def)
  then show ?thesis by (simp add: initial_def)
qed

theorem distance0_only_TrustPrevious_witness:
  "HttpForwardRep_by (\<lambda>_ _ hop. if hop = 0 then TrustPrevious else 0)
       [hthvItem ((named ''for'' ''c'')
          \<lparr>partial_p := Some [(''host'', hthvItem (named ''host'' ''x''))],
           partial_pl := Some [hthvItem (named ''host'' ''x'')]\<rparr>)]
       \<lparr>by_d = ''b'', for_d = ''f'', host_d = ''h'', proto_d = ''p''\<rparr> () =
   HttpForwardRep_by (\<lambda>_ _ hop. if hop = 0 then TrustCurrent OR TrustPrevious else 0)
       [hthvItem ((named ''for'' ''c'')
          \<lparr>partial_p := Some [(''host'', hthvItem (named ''host'' ''x''))],
           partial_pl := Some [hthvItem (named ''host'' ''x'')]\<rparr>)]
       \<lparr>by_d = ''b'', for_d = ''f'', host_d = ''h'', proto_d = ''p''\<rparr> ()"
proof -
  have "(TrustPrevious :: mask) AND TrustPrevious = (TrustCurrent OR TrustPrevious) AND TrustPrevious"
    by (simp add: TrustCurrent_def TrustPrevious_def)
  then show ?thesis
    using distance0_only_TrustPrevious
      [of "\<lambda>_ _ hop. if hop = 0 then TrustPrevious else 0" "()"
          "\<lambda>_ _ hop. if hop = 0 then TrustCurrent OR TrustPrevious else 0" "()"
          "\<lparr>by_d = ''b'', for_d = ''f'', host_d = ''h'', proto_d = ''p''\<rparr>"]
    by simp
qed

text \<open>
  C4. With no items, the report is the defaults in each of \<^verbatim>\<open>by\<close>, \<^verbatim>\<open>for\<close>, \<^verbatim>\<open>host\<close> and
  \<^verbatim>\<open>proto\<close> and has no other field, for every defaults value and every policy; the
  function is total, so it does not fail.
\<close>

theorem by_empty_is_defaults:
  "HttpForwardRep_by trustBy [] defaults trust =
     [(''host'', host_d defaults), (''proto'', proto_d defaults),
      (''for'', for_d defaults), (''by'', by_d defaults)]"
  by (simp add: HttpForwardRep_by_def buildResult_def initial_def defaultsItem_def
      hthvItem_def named_def setProp_def Let_def)

text \<open>
  C5, as stated, fails in its last part: the report does hold fields of \<^verbatim>\<open>hopB\<close>. Here
  \<^verbatim>\<open>hopA\<close> has \<^verbatim>\<open>for=a\<close> in its index and no \<^verbatim>\<open>proto\<close>, \<^verbatim>\<open>hopB\<close> has \<^verbatim>\<open>proto=https\<close>, the
  defaults have \<^verbatim>\<open>proto\<close> \<^verbatim>\<open>http\<close>, and the policy answers \<^verbatim>\<open>TrustCurrent|TrustPrevious\<close> for
  \<^verbatim>\<open>hopB\<close> and 0 for \<^verbatim>\<open>hopA\<close>: the \<^verbatim>\<open>proto\<close> of the report is the one of \<^verbatim>\<open>hopB\<close>.
\<close>

theorem two_hops_fallback_counterexample:
  "HttpForwardRep_by (\<lambda>_ _ hop. if hop = 1 then TrustCurrent OR TrustPrevious else 0)
     [HthvItem None (Some ''for'') None ''a'' None
        [(''for'', HthvItem None (Some ''for'') None ''a'' None [] [])] [],
      HthvItem None (Some ''for'') None ''b'' None
        [(''for'', HthvItem None (Some ''for'') None ''b'' None [] []),
         (''proto'', HthvItem None (Some ''proto'') None ''https'' None [] []),
         (''secret'', HthvItem None (Some ''secret'') None ''s'' None [] [])]
        [HthvItem None (Some ''proto'') None ''https'' None [] [],
         HthvItem None (Some ''secret'') None ''s'' None [] []]]
     \<lparr>by_d = ''10.0.0.1'', for_d = ''10.0.0.2'', host_d = ''example.com'',
      proto_d = ''http''\<rparr> () =
   [(''for'', ''a''), (''by'', ''10.0.0.1''), (''host'', ''example.com''),
    (''proto'', ''https'')]"
  by (simp add: numeral_2_eq_2 by_simps full_has_current TrustCurrent_def TrustPrevious_def)

text \<open>
  C5, amended. Two hops \<^verbatim>\<open>[hopA, hopB]\<close>, the policy answering \<^verbatim>\<open>TrustCurrent|TrustPrevious\<close>
  for \<^verbatim>\<open>hopB\<close> at distance 1 and 0 for \<^verbatim>\<open>hopA\<close> at distance 2. The mask the walk computes
  for \<^verbatim>\<open>hopA\<close> is \<^verbatim>\<open>TrustCurrent\<close>, by the \<^verbatim>\<open>TrustPrevious\<close> bit of \<^verbatim>\<open>hopB\<close>, and the walk ends
  with \<^verbatim>\<open>hopA\<close> as the trusted record. In the report, every field other than \<^verbatim>\<open>by\<close>,
  \<^verbatim>\<open>for\<close>, \<^verbatim>\<open>host\<close> and \<^verbatim>\<open>proto\<close> is one of \<^verbatim>\<open>hopA\<close>, its own name and value or a named
  parameter of its list, and none is of \<^verbatim>\<open>hopB\<close>; each of \<^verbatim>\<open>by\<close>, \<^verbatim>\<open>for\<close>, \<^verbatim>\<open>host\<close> and \<^verbatim>\<open>proto\<close>
  is the non-empty value the index of \<^verbatim>\<open>hopA\<close> has for it, else the one the index of
  \<^verbatim>\<open>hopB\<close> has, else the one of the defaults.
\<close>

theorem two_hops_propagation:
  assumes "trustBy trust hopB 1 = TrustCurrent OR TrustPrevious"
    and "trustBy trust hopA 2 = 0"
  shows "loop (trustBy trust) [hopA, hopB] 2 (initial (trustBy trust) defaults) =
           \<lparr>trustedBy = paramOr (item_p hopA) ''by''
                          (paramOr (item_p hopB) ''by'' (by_d defaults)),
            trustedFor = paramOr (item_p hopA) ''for''
                           (paramOr (item_p hopB) ''for'' (for_d defaults)),
            trustedHost = paramOr (item_p hopA) ''host''
                            (paramOr (item_p hopB) ''host'' (host_d defaults)),
            trustedProto = paramOr (item_p hopA) ''proto''
                             (paramOr (item_p hopB) ''proto'' (proto_d defaults)),
            trusted = hopA, trustedFlag = TrustCurrent, index = 2\<rparr> \<and>
         (\<forall>k. map_of (HttpForwardRep_by trustBy [hopA, hopB] defaults trust) k =
            (if k = ''by'' then
               Some (paramOr (item_p hopA) ''by''
                       (paramOr (item_p hopB) ''by'' (by_d defaults)))
             else if k = ''for'' then
               Some (paramOr (item_p hopA) ''for''
                       (paramOr (item_p hopB) ''for'' (for_d defaults)))
             else if k = ''host'' then
               Some (paramOr (item_p hopA) ''host''
                       (paramOr (item_p hopB) ''host'' (host_d defaults)))
             else if k = ''proto'' then
               Some (paramOr (item_p hopA) ''proto''
                       (paramOr (item_p hopB) ''proto'' (proto_d defaults)))
             else extensionField hopA k))"
proof -
  let ?s = "\<lparr>trustedBy = paramOr (item_p hopA) ''by''
                          (paramOr (item_p hopB) ''by'' (by_d defaults)),
            trustedFor = paramOr (item_p hopA) ''for''
                           (paramOr (item_p hopB) ''for'' (for_d defaults)),
            trustedHost = paramOr (item_p hopA) ''host''
                            (paramOr (item_p hopB) ''host'' (host_d defaults)),
            trustedProto = paramOr (item_p hopA) ''proto''
                             (paramOr (item_p hopB) ''proto'' (proto_d defaults)),
            trusted = hopA, trustedFlag = TrustCurrent, index = 2\<rparr>"
  have walk: "loop (trustBy trust) [hopA, hopB] 2 (initial (trustBy trust) defaults) = ?s"
    using assms TrustCurrent_nonzero
    by (simp add: numeral_2_eq_2 initial_def Let_def loop_Suc hopMask_def
        accept_def full_has_current full_propagates del: drop_bit_and)
  then have rep: "HttpForwardRep_by trustBy [hopA, hopB] defaults trust = buildResult ?s"
    by (simp add: HttpForwardRep_by_def Let_def numeral_2_eq_2)
  show ?thesis
    by (simp add: walk rep map_of_buildResult)
qed

theorem two_hops_propagation_witness:
  "map_of
     (HttpForwardRep_by (\<lambda>_ _ hop. if hop = 1 then TrustCurrent OR TrustPrevious else 0)
       [HthvItem None (Some ''secret'') None ''a'' None
          [(''for'', HthvItem None (Some ''for'') None ''client'' None [] []),
           (''host'', HthvItem None (Some ''host'') None ''site'' None [] []),
           (''via'', HthvItem None (Some ''via'') None ''x'' None [] [])]
          [HthvItem None (Some ''for'') None ''client'' None [] [],
           HthvItem None (Some ''host'') None ''site'' None [] [],
           HthvItem None (Some ''via'') None ''x'' None [] []],
        HthvItem None (Some ''by'') None ''edge'' None
          [(''for'', HthvItem None (Some ''for'') None ''proxy'' None [] []),
           (''proto'', HthvItem None (Some ''proto'') None ''https'' None [] []),
           (''tag'', HthvItem None (Some ''tag'') None ''t'' None [] [])]
          [HthvItem None (Some ''for'') None ''proxy'' None [] [],
           HthvItem None (Some ''proto'') None ''https'' None [] [],
           HthvItem None (Some ''tag'') None ''t'' None [] []]]
       \<lparr>by_d = ''b'', for_d = ''f'', host_d = ''h'', proto_d = ''p''\<rparr> ())
   = [''for'' \<mapsto> ''client'', ''host'' \<mapsto> ''site'', ''via'' \<mapsto> ''x'', ''secret'' \<mapsto> ''a'',
      ''by'' \<mapsto> ''b'', ''proto'' \<mapsto> ''https'']"
proof
  fix k
  show "map_of
     (HttpForwardRep_by (\<lambda>_ _ hop. if hop = 1 then TrustCurrent OR TrustPrevious else 0)
       [HthvItem None (Some ''secret'') None ''a'' None
          [(''for'', HthvItem None (Some ''for'') None ''client'' None [] []),
           (''host'', HthvItem None (Some ''host'') None ''site'' None [] []),
           (''via'', HthvItem None (Some ''via'') None ''x'' None [] [])]
          [HthvItem None (Some ''for'') None ''client'' None [] [],
           HthvItem None (Some ''host'') None ''site'' None [] [],
           HthvItem None (Some ''via'') None ''x'' None [] []],
        HthvItem None (Some ''by'') None ''edge'' None
          [(''for'', HthvItem None (Some ''for'') None ''proxy'' None [] []),
           (''proto'', HthvItem None (Some ''proto'') None ''https'' None [] []),
           (''tag'', HthvItem None (Some ''tag'') None ''t'' None [] [])]
          [HthvItem None (Some ''for'') None ''proxy'' None [] [],
           HthvItem None (Some ''proto'') None ''https'' None [] [],
           HthvItem None (Some ''tag'') None ''t'' None [] []]]
       \<lparr>by_d = ''b'', for_d = ''f'', host_d = ''h'', proto_d = ''p''\<rparr> ()) k
   = [''for'' \<mapsto> ''client'', ''host'' \<mapsto> ''site'', ''via'' \<mapsto> ''x'', ''secret'' \<mapsto> ''a'',
      ''by'' \<mapsto> ''b'', ''proto'' \<mapsto> ''https''] k"
    using two_hops_propagation
      [of "\<lambda>_ _ hop. if hop = 1 then TrustCurrent OR TrustPrevious else 0" "()"
        "HthvItem None (Some ''by'') None ''edge'' None
          [(''for'', HthvItem None (Some ''for'') None ''proxy'' None [] []),
           (''proto'', HthvItem None (Some ''proto'') None ''https'' None [] []),
           (''tag'', HthvItem None (Some ''tag'') None ''t'' None [] [])]
          [HthvItem None (Some ''for'') None ''proxy'' None [] [],
           HthvItem None (Some ''proto'') None ''https'' None [] [],
           HthvItem None (Some ''tag'') None ''t'' None [] []]"
        "HthvItem None (Some ''secret'') None ''a'' None
          [(''for'', HthvItem None (Some ''for'') None ''client'' None [] []),
           (''host'', HthvItem None (Some ''host'') None ''site'' None [] []),
           (''via'', HthvItem None (Some ''via'') None ''x'' None [] [])]
          [HthvItem None (Some ''for'') None ''client'' None [] [],
           HthvItem None (Some ''host'') None ''site'' None [] [],
           HthvItem None (Some ''via'') None ''x'' None [] []]"
        "\<lparr>by_d = ''b'', for_d = ''f'', host_d = ''h'', proto_d = ''p''\<rparr>"]
    by (simp add: extensionField_def paramOr_def)
qed

text \<open>
  C6. The report depends on the hops the walk accepts only: the list without its first
  \<open>j\<close> items, the most distant ones, gives the same report as the whole list, as long
  as the walk over the whole list accepts none of those \<open>j\<close> items. This covers the
  removal of every item beyond the hop the walk stops at, and of that hop too.
\<close>

theorem untrusted_tail_irrelevant:
  assumes "j + trustedHops (loop (trustBy trust) items (length items)
                 (initial (trustBy trust) defaults)) \<le> length items"
  shows "HttpForwardRep_by trustBy (drop j items) defaults trust =
         HttpForwardRep_by trustBy items defaults trust"
proof -
  have "buildResult (loop (trustBy trust) (drop j items) (length items - j)
          (initial (trustBy trust) defaults)) =
        buildResult (loop (trustBy trust) items ((length items - j) + j)
          (initial (trustBy trust) defaults))"
    using assms by (intro loop_drop_result) (simp_all add: initial_def)
  with assms show ?thesis
    by (simp add: HttpForwardRep_by_def Let_def)
qed

theorem untrusted_tail_irrelevant_witness:
  "HttpForwardRep_by (\<lambda>_ _ hop. if hop = 1 then TrustCurrent else 0)
     (drop 2 [hthvItem (named ''for'' ''far''), hthvItem (named ''for'' ''mid''),
              hthvItem ((named ''for'' ''near'')
                \<lparr>partial_p := Some [(''host'', hthvItem (named ''host'' ''x''))],
                 partial_pl := Some [hthvItem (named ''host'' ''x'')]\<rparr>)])
     \<lparr>by_d = ''b'', for_d = ''f'', host_d = ''h'', proto_d = ''p''\<rparr> () =
   HttpForwardRep_by (\<lambda>_ _ hop. if hop = 1 then TrustCurrent else 0)
     [hthvItem (named ''for'' ''far''), hthvItem (named ''for'' ''mid''),
      hthvItem ((named ''for'' ''near'')
        \<lparr>partial_p := Some [(''host'', hthvItem (named ''host'' ''x''))],
         partial_pl := Some [hthvItem (named ''host'' ''x'')]\<rparr>)]
     \<lparr>by_d = ''b'', for_d = ''f'', host_d = ''h'', proto_d = ''p''\<rparr> ()"
  using untrusted_tail_irrelevant
    [of 2 "\<lambda>_ _ hop. if hop = 1 then TrustCurrent else 0" "()"
        "[hthvItem (named ''for'' ''far''), hthvItem (named ''for'' ''mid''),
          hthvItem ((named ''for'' ''near'')
            \<lparr>partial_p := Some [(''host'', hthvItem (named ''host'' ''x''))],
             partial_pl := Some [hthvItem (named ''host'' ''x'')]\<rparr>)]"
        "\<lparr>by_d = ''b'', for_d = ''f'', host_d = ''h'', proto_d = ''p''\<rparr>"]
  by (simp add: numeral_3_eq_3 initial_def loop_Suc hopMask_def accept_def trustedHops_def
      TrustCurrent_def TrustPrevious_def)

text \<open>
  C7. The claim: \<^verbatim>\<open>hthvQuote(s)\<close> is \<^verbatim>\<open>s\<close> itself, or \<^verbatim>\<open>s\<close> in one pair of double quotes
  with each backslash and double quote of it escaped. The code breaks it on the string
  of a double quote followed by a space: with the double quote among the delimiters,
  the quote is escaped and the space after it is dropped; without it, the quote is not
  escaped. Either way the result is neither the string nor its quoted form.
\<close>

theorem hthvQuote_drops_space:
  "hthvQuote delimiters [dquote, 0x20] =
     (if delimiters dquote then [dquote, backslash, dquote, dquote]
      else [dquote, dquote, 0x20, dquote]) \<and>
   hthvQuote delimiters [dquote, 0x20] \<noteq> [dquote, 0x20] \<and>
   hthvQuote delimiters [dquote, 0x20] \<noteq> quoted_spec [dquote, 0x20] \<and>
   quoted_spec [dquote, 0x20] = [dquote, backslash, dquote, 0x20, dquote]"
  by (simp add: hthvQuote_shape escapable_def appended_def special_def dquote_def
      backslash_def quoted_spec_def escaped_spec_def)

text \<open>
  C8. \<^verbatim>\<open>hthvQuote(s)\<close> is \<^verbatim>\<open>s\<close> exactly when \<^verbatim>\<open>s\<close> is not empty and has no character of
  code at most \<^verbatim>\<open>0x20\<close>, no \<^verbatim>\<open>0x7F\<close> and no delimiter, whatever the delimiter table is.
\<close>

theorem hthvQuote_unchanged_iff:
  "(hthvQuote delimiters str = str) =
     (str \<noteq> [] \<and> \<not> (\<exists>c\<in>set str. c \<le> 0x20 \<or> c = 0x7F \<or> delimiters c))"
proof (cases "str = []")
  case True
  then show ?thesis by (simp add: hthvQuote_shape)
next
  case ne: False
  show ?thesis
  proof (cases "\<exists>c\<in>set str. special delimiters c")
    case False
    then have "\<not> (\<exists>c\<in>set str. escapable delimiters c)"
      by (auto simp: escapable_def)
    with False ne have "hthvQuote delimiters str = str"
      by (simp add: hthvQuote_shape)
    moreover have "\<not> (\<exists>c\<in>set str. c \<le> 0x20 \<or> c = 0x7F \<or> delimiters c)"
      using False by (auto simp: special_def)
    ultimately show ?thesis using ne by simp
  next
    case True
    then have sp: "\<exists>c\<in>set str. c \<le> 0x20 \<or> c = 0x7F \<or> delimiters c"
      by (auto simp: special_def)
    have "hthvQuote delimiters str \<noteq> str"
    proof (cases "\<exists>c\<in>set str. escapable delimiters c")
      case esc: True
      then show ?thesis
        using ne escaped_form_differs [OF esc] by (simp add: hthvQuote_shape)
    next
      case False
      with True ne have "hthvQuote delimiters str = dquote # str @ [dquote]"
        by (simp add: hthvQuote_shape)
      moreover have "length (dquote # str @ [dquote]) \<noteq> length str" by simp
      ultimately show ?thesis by metis
    qed
    with sp show ?thesis by simp
  qed
qed

theorem hthvQuote_unchanged_iff_witness:
  "hthvQuote (\<lambda>c. c = 0x2C \<or> c = dquote \<or> c = backslash) [0x61, 0x62] = [0x61, 0x62] \<and>
   hthvQuote (\<lambda>c. c = 0x2C \<or> c = dquote \<or> c = backslash) [0x61, 0x2C, 0x62] \<noteq> [0x61, 0x2C, 0x62] \<and>
   hthvQuote (\<lambda>c. c = 0x2C \<or> c = dquote \<or> c = backslash) [] \<noteq> []"
  using hthvQuote_unchanged_iff [of "\<lambda>c. c = 0x2C \<or> c = dquote \<or> c = backslash" "[0x61, 0x62]"]
    hthvQuote_unchanged_iff [of "\<lambda>c. c = 0x2C \<or> c = dquote \<or> c = backslash" "[0x61, 0x2C, 0x62]"]
    hthvQuote_unchanged_iff [of "\<lambda>c. c = 0x2C \<or> c = dquote \<or> c = backslash" "[]"]
  by (simp add: dquote_def backslash_def)

text \<open>
  C9. The items this code constructs keep the invariant of the data model: for the
  record built from the defaults and for every item of \<^verbatim>\<open>hthvXForwardedItems\<close>, and for
  each of their parameters, the parameter index is the fold of the parameter list.
\<close>

theorem constructed_items_indexed:
  "indexed (defaultsItem defaults) \<and>
   list_all indexed (item_pl (defaultsItem defaults)) \<and>
   list_all (\<lambda>item. indexed item \<and> list_all indexed (item_pl item))
     (hthvXForwardedItems hthvParseTrivial hthvParseFirstTrivial headers)"
  by (auto simp: indexed_def defaultsItem_def hthvItem_def named_def paramIndex_def Let_def
      hthvXForwardedItems_def optItem_def list_all_iff split: option.splits)

text \<open>
  C10. A \<^verbatim>\<open>Forwarded\<close> header that is the empty string is treated as a missing one: the
  report is the one for the headers without it, whatever the parser \<^verbatim>\<open>hthvParse\<close> is, and
  it is the copy of the defaults when \<^verbatim>\<open>trust.xForwarded === false\<close> and else the report
  of the items built from the \<^verbatim>\<open>X-Forwarded-...\<close> headers.
\<close>

theorem empty_forwarded_is_absent:
  "HttpForwardRep_parse hthvParse hthvParseTrivial hthvParseFirstTrivial trustBy
       (headers\<lparr>forwarded := Some (Single [])\<rparr>) defaults trust =
     HttpForwardRep_parse hthvParse' hthvParseTrivial hthvParseFirstTrivial trustBy
       (headers\<lparr>forwarded := None\<rparr>) defaults trust \<and>
   HttpForwardRep_parse hthvParse hthvParseTrivial hthvParseFirstTrivial trustBy
       (headers\<lparr>forwarded := Some (Single [])\<rparr>) defaults trust =
     (if xForwarded trust = Some False then copyDefaults defaults
      else HttpForwardRep_by trustBy
             (hthvXForwardedItems hthvParseTrivial hthvParseFirstTrivial headers) defaults trust)"
  by (simp add: HttpForwardRep_parse_def hthvXForwardedItems_forwarded)

end
